theory Spec2Isabelle
  imports Main "HOL-Library.Sublist" "HOL-Library.Word"
begin

section \<open>The string primitives of package \<open>strings\<close> used by contract.go\<close>

text \<open>
  A Go string is a sequence of bytes; \<open>string\<close> (a list of \<open>char\<close>, one per byte)
  models it. The functions below are the ones \<open>contract.go\<close> calls. Every call of the
  source passes a non-empty separator or pattern, and the definitions follow the
  standard library for that case.
\<close>

text \<open>\<open>strings.Index\<close>: the position of the first occurrence, \<open>None\<close> for Go's -1.\<close>

primrec Index :: "string \<Rightarrow> string \<Rightarrow> nat option" where
  "Index [] sep = (if sep = [] then Some 0 else None)"
| "Index (c # cs) sep =
     (if prefix sep (c # cs) then Some 0 else map_option Suc (Index cs sep))"

definition Contains :: "string \<Rightarrow> string \<Rightarrow> bool" where
  "Contains s substr = (Index s substr \<noteq> None)"

text \<open>
  \<open>strings.Split\<close> with a non-empty separator: cut at the first occurrence, go on
  behind it, and end with the rest. (With an empty separator Go explodes the string
  into its UTF-8 sequences; the source never does that, and the model gives the bytes.)
\<close>

lemma Index_bound: "Index s sep = Some m \<Longrightarrow> m + length sep \<le> length s"
proof (induction s arbitrary: m)
  case Nil
  then show ?case by (simp split: if_splits)
next
  case (Cons c cs)
  show ?case
  proof (cases "prefix sep (c # cs)")
    case True
    with Cons.prems have "m = 0" by simp
    with True show ?thesis using prefix_length_le [of sep "c # cs"] by simp
  next
    case False
    with Cons.prems obtain k where "Index cs sep = Some k" "m = Suc k" by auto
    with Cons.IH show ?thesis by fastforce
  qed
qed

function Split :: "string \<Rightarrow> string \<Rightarrow> string list" where
  "Split s sep =
     (if sep = [] then map (\<lambda>c. [c]) s
      else case Index s sep of
             None \<Rightarrow> [s]
           | Some m \<Rightarrow> take m s # Split (drop (m + length sep) s) sep)"
  by pat_completeness auto
termination
proof (relation "measure (\<lambda>(s, sep). length s)")
  show "wf (measure (\<lambda>(s, sep). length s))" by simp
next
  fix s sep :: string and m :: nat
  assume "sep \<noteq> []" and "Index s sep = Some m"
  then have "m + length sep \<le> length s" and "0 < length sep"
    by (simp_all add: Index_bound)
  then have "length (drop (m + length sep) s) < length s"
    unfolding length_drop by arith
  then show "((drop (m + length sep) s, sep), (s, sep)) \<in> measure (\<lambda>(s, sep). length s)"
    by simp
qed

declare Split.simps [simp del]

text \<open>
  \<open>strings.Replace s old new n\<close> for \<open>n \<ge> 0\<close>: the first \<open>n\<close> occurrences of
  \<open>old\<close>, from the left and not overlapping, are replaced by \<open>new\<close>.
\<close>

fun Replace :: "string \<Rightarrow> string \<Rightarrow> string \<Rightarrow> nat \<Rightarrow> string" where
  "Replace s old new 0 = s"
| "Replace s old new (Suc n) =
     (case Index s old of
        None \<Rightarrow> s
      | Some m \<Rightarrow> take m s @ new @ Replace (drop (m + length old) s) old new n)"

text \<open>
  \<open>strings.TrimSpace\<close> removes the leading and then the trailing white space, as
  \<open>unicode.IsSpace\<close> defines it: the six ASCII characters tab, line feed, vertical tab,
  form feed, carriage return and space, and the code points U+0085, U+00A0, U+1680,
  U+2000..U+200A, U+2028, U+2029, U+202F, U+205F and U+3000. On bytes, the first
  (last) rune of a string is one of these exactly when the string starts (ends) with
  its UTF-8 encoding; \<open>spaceWidth\<close> gives the number of bytes of a leading white-space
  rune, and 0 when the string does not start with one.
\<close>

definition asciiSpace :: "char \<Rightarrow> bool" where
  "asciiSpace c =
     (c = CHR 0x09 \<or> c = CHR 0x0A \<or> c = CHR 0x0B \<or> c = CHR 0x0C \<or> c = CHR 0x0D \<or> c = CHR 0x20)"

fun spaceWidth :: "string \<Rightarrow> nat" where
  "spaceWidth [] = 0"
| "spaceWidth [c] = (if asciiSpace c then 1 else 0)"
| "spaceWidth [c, d] =
     (if asciiSpace c then 1
      else if c = CHR 0xC2 \<and> (d = CHR 0x85 \<or> d = CHR 0xA0) then 2 else 0)"
| "spaceWidth (c # d # e # _) =
     (if asciiSpace c then 1
      else if c = CHR 0xC2 \<and> (d = CHR 0x85 \<or> d = CHR 0xA0) then 2
      else if c = CHR 0xE1 \<and> d = CHR 0x9A \<and> e = CHR 0x80 then 3
      else if c = CHR 0xE2 \<and> d = CHR 0x80 \<and>
              (of_char e \<in> {0x80 .. 0x8A :: nat} \<or> e = CHR 0xA8 \<or> e = CHR 0xA9 \<or> e = CHR 0xAF)
           then 3
      else if c = CHR 0xE2 \<and> d = CHR 0x81 \<and> e = CHR 0x9F then 3
      else if c = CHR 0xE3 \<and> d = CHR 0x80 \<and> e = CHR 0x80 then 3
      else 0)"

text \<open>The same for the last rune, read from the reversed string.\<close>

fun spaceWidthLast :: "string \<Rightarrow> nat" where
  "spaceWidthLast [] = 0"
| "spaceWidthLast [e] = (if asciiSpace e then 1 else 0)"
| "spaceWidthLast [e, d] =
     (if asciiSpace e then 1
      else if d = CHR 0xC2 \<and> (e = CHR 0x85 \<or> e = CHR 0xA0) then 2 else 0)"
| "spaceWidthLast (e # d # c # _) =
     (if asciiSpace e then 1
      else if d = CHR 0xC2 \<and> (e = CHR 0x85 \<or> e = CHR 0xA0) then 2
      else if c = CHR 0xE1 \<and> d = CHR 0x9A \<and> e = CHR 0x80 then 3
      else if c = CHR 0xE2 \<and> d = CHR 0x80 \<and>
              (of_char e \<in> {0x80 .. 0x8A :: nat} \<or> e = CHR 0xA8 \<or> e = CHR 0xA9 \<or> e = CHR 0xAF)
           then 3
      else if c = CHR 0xE2 \<and> d = CHR 0x81 \<and> e = CHR 0x9F then 3
      else if c = CHR 0xE3 \<and> d = CHR 0x80 \<and> e = CHR 0x80 then 3
      else 0)"

lemma spaceWidth_le: "spaceWidth s \<le> length s"
  by (induction s rule: spaceWidth.induct) auto

lemma spaceWidthLast_le: "spaceWidthLast s \<le> length s"
  by (induction s rule: spaceWidthLast.induct) auto

function TrimLeft :: "string \<Rightarrow> string" where
  "TrimLeft s = (if spaceWidth s = 0 then s else TrimLeft (drop (spaceWidth s) s))"
  by pat_completeness auto
termination
proof (relation "measure length")
  show "wf (measure length)" by simp
next
  fix s :: string
  assume "spaceWidth s \<noteq> 0"
  moreover have "spaceWidth s \<le> length s" by (rule spaceWidth_le)
  ultimately show "(drop (spaceWidth s) s, s) \<in> measure length" by simp
qed

declare TrimLeft.simps [simp del]

text \<open>\<open>TrimRevLeft\<close> works on the reversed string, so that it drops from the end.\<close>

function TrimRevLeft :: "string \<Rightarrow> string" where
  "TrimRevLeft r =
     (if spaceWidthLast r = 0 then r else TrimRevLeft (drop (spaceWidthLast r) r))"
  by pat_completeness auto
termination
proof (relation "measure length")
  show "wf (measure length)" by simp
next
  fix r :: string
  assume "spaceWidthLast r \<noteq> 0"
  moreover have "spaceWidthLast r \<le> length r" by (rule spaceWidthLast_le)
  ultimately show "(drop (spaceWidthLast r) r, r) \<in> measure length" by simp
qed

declare TrimRevLeft.simps [simp del]

definition TrimRight :: "string \<Rightarrow> string" where
  "TrimRight s = rev (TrimRevLeft (rev s))"

definition TrimSpace :: "string \<Rightarrow> string" where
  "TrimSpace s = TrimRight (TrimLeft s)"

text \<open>
  \<open>strings.ToLower\<close>: a string of ASCII bytes only has its letters \<open>A\<close>..\<open>Z\<close> mapped to
  \<open>a\<close>..\<open>z\<close>; any other string goes through \<open>strings.Map(unicode.ToLower, s)\<close>, which
  needs the case tables of package \<open>unicode\<close> and is the parameter \<open>mapLower\<close> here.
\<close>

definition isASCII :: "string \<Rightarrow> bool" where
  "isASCII s = (\<forall>c \<in> set s. (of_char c :: nat) < 0x80)"

definition lowerByte :: "char \<Rightarrow> char" where
  "lowerByte c =
     (if (of_char (CHR ''A'') :: nat) \<le> of_char c \<and> (of_char c :: nat) \<le> of_char (CHR ''Z'')
      then char_of (of_char c + (32 :: nat)) else c)"

definition ToLower :: "(string \<Rightarrow> string) \<Rightarrow> string \<Rightarrow> string" where
  "ToLower mapLower s = (if isASCII s then map lowerByte s else mapLower s)"

section \<open>The data model\<close>

record Argument =
  Name :: string
  Type :: string
  InternalType :: string

record Method =
  Name :: string
  Inputs :: "Argument list"
  Outputs :: "Argument list"
  Type :: string
  StateMutability :: string

text \<open>
  A Go \<open>error\<close> is modelled by its message. A panic is a value: \<open>panic("...")\<close> with a
  string, \<open>panic(err)\<close> with an error, and the run-time panic of an index expression
  \<open>xs[i]\<close> with \<open>i\<close> not below \<open>len(xs)\<close>.
\<close>

type_synonym error = string

datatype panic =
    PanicString string
  | PanicError error
  | IndexOutOfRange nat nat

definition idx :: "'a list \<Rightarrow> nat \<Rightarrow> panic + 'a" where
  "idx xs i = (if i < length xs then Inr (xs ! i) else Inl (IndexOutOfRange i (length xs)))"

section \<open>The signature parser\<close>

definition parseParamsPath :: "string \<Rightarrow> string list" where
  "parseParamsPath paramsPath = Split paramsPath '',''"

text \<open>
  The two loops of \<open>parseNewMethod\<close>. The loop over the input parameters appends an
  argument for every parameter that is not the empty string; the loop over the outputs
  appends one for every output.
\<close>

definition typeArgument :: "string \<Rightarrow> Argument" where
  "typeArgument param =
     \<lparr>Argument.Name = [], Argument.Type = TrimSpace param, InternalType = TrimSpace param\<rparr>"

primrec appendInputs :: "Method \<Rightarrow> string list \<Rightarrow> Method" where
  "appendInputs newMethod [] = newMethod"
| "appendInputs newMethod (inParam # params) =
     appendInputs
       (if inParam \<noteq> [] then newMethod\<lparr>Inputs := Inputs newMethod @ [typeArgument inParam]\<rparr>
        else newMethod)
       params"

primrec appendOutputs :: "Method \<Rightarrow> string list \<Rightarrow> Method" where
  "appendOutputs newMethod [] = newMethod"
| "appendOutputs newMethod (outParam # outputs) =
     appendOutputs (newMethod\<lparr>Outputs := Outputs newMethod @ [typeArgument outParam]\<rparr>) outputs"

definition parseNewMethod :: "string \<Rightarrow> panic + Method" where
  "parseNewMethod signature =
     (let methodPaths = Split signature ''(''
      in if length methodPaths \<le> 1 then Inl (PanicString ''Function is invalid format!'')
      else case idx methodPaths 0 of Inl p \<Rightarrow> Inl p | Inr methodPath \<Rightarrow>
        let methodName = TrimSpace (Replace methodPath ''function'' [] 1);
            newMethod = \<lparr>Method.Name = methodName, Inputs = [], Outputs = [],
                         Type = ''function'', StateMutability = ''view''\<rparr>;
            isMultipleReturn = Contains signature '')(''
        in if isMultipleReturn then
             (let multipleReturnPaths = Split signature '')(''
              in case idx multipleReturnPaths 1 of Inl p \<Rightarrow> Inl p | Inr multipleReturnPath \<Rightarrow>
                 case idx multipleReturnPaths 0 of Inl p \<Rightarrow> Inl p | Inr inputPath \<Rightarrow>
                 case idx (Split inputPath ''('') 1 of Inl p \<Rightarrow> Inl p | Inr paramsPath \<Rightarrow>
                   let params = parseParamsPath paramsPath;
                       newMethod = appendInputs newMethod params;
                       outputPath = Replace multipleReturnPath '')'' [] 1;
                       outputs = Split outputPath '',''
                   in Inr (appendOutputs newMethod outputs))
           else
             (let singleReturnPaths = Split signature '')''
              in case idx singleReturnPaths 0 of Inl p \<Rightarrow> Inl p | Inr inputPath \<Rightarrow>
                 case idx (Split inputPath ''('') 1 of Inl p \<Rightarrow> Inl p | Inr paramsPath \<Rightarrow>
                   let params = parseParamsPath paramsPath;
                       newMethod = appendInputs newMethod params
                   in case idx singleReturnPaths 1 of Inl p \<Rightarrow> Inl p | Inr returnPath \<Rightarrow>
                      let returnType = TrimSpace returnPath
                      in Inr (newMethod\<lparr>Outputs := Outputs newMethod @
                                [\<lparr>Argument.Name = [], Argument.Type = returnType,
                                  InternalType = returnType\<rparr>]\<rparr>)))"




section \<open>The session: registry, pending batch, execution\<close>

type_synonym bytes = "8 word list"

text \<open>
  Modelled from the spec: the type \<open>core.Call\<close> of package \<open>core\<close>, whose declaration is
  not among the sources. A call entry holds the label, the target address, the method
  name and the encoded payload; the field names are the ones \<open>AddCall\<close> writes. The
  address type is a parameter (\<open>common.Address\<close>).
\<close>

record 'addr core_Call =
  Method :: string
  Target :: 'addr
  Name :: string
  CallData :: bytes

text \<open>
  The struct \<open>contract\<close>. The compiled interface description \<open>abi.ABI\<close> belongs to
  go-ethereum and is a type parameter. The handles \<open>ethClient\<close> and \<open>multiCaller\<close> are
  left out: the functions below take what they do with them, the aggregator call
  \<open>multiCaller.Execute\<close>, as an argument.
\<close>

record ('abi, 'addr) contract =
  contractAbi :: 'abi
  rawMethods :: "string \<rightharpoonup> string"
  methods :: "Method list"
  calls :: "'addr core_Call list"

text \<open>\<open>NewContractBuilder\<close>; \<open>zeroAbi\<close> is the zero value \<open>abi.ABI{}\<close>.\<close>

definition NewContractBuilder :: "'abi \<Rightarrow> ('abi, 'addr) contract" where
  "NewContractBuilder zeroAbi =
     \<lparr>contractAbi = zeroAbi, rawMethods = Map.empty, methods = [], calls = []\<rparr>"

text \<open>
  \<open>repackAbi\<close>: \<open>marshal\<close> is \<open>json.Marshal\<close> on a list of methods and \<open>abiJSON\<close> is
  \<open>abi.JSON\<close> on the text read from the string; each returns its value or an error.
\<close>

definition repackAbi ::
  "(Method list \<Rightarrow> error + string) \<Rightarrow> (string \<Rightarrow> error + 'abi) \<Rightarrow> Method list \<Rightarrow> error + 'abi"
where
  "repackAbi marshal abiJSON ms =
     (case marshal ms of Inl err \<Rightarrow> Inl err | Inr abiString \<Rightarrow> abiJSON abiString)"

text \<open>
  \<open>AddMethod\<close> changes the session in place and may panic in the middle. The model
  returns \<open>Inr\<close> of the new session when it returns, and \<open>Inl\<close> of the panic together
  with the session as the panic leaves it. (The second test of \<open>err\<close> in the source
  comes after the first one has passed and can never fire.)
\<close>

definition AddMethod ::
  "(string \<Rightarrow> string) \<Rightarrow> (Method list \<Rightarrow> error + string) \<Rightarrow> (string \<Rightarrow> error + 'abi) \<Rightarrow>
   ('abi, 'addr) contract \<Rightarrow> string \<Rightarrow> panic \<times> ('abi, 'addr) contract + ('abi, 'addr) contract"
where
  "AddMethod mapLower marshal abiJSON a signature =
     (case rawMethods a (ToLower mapLower signature) of
        Some existCall \<Rightarrow>
          Inl (PanicString (''Caller named '' @ existCall @ '' is exist on ABI''), a)
      | None \<Rightarrow>
          let a = a\<lparr>rawMethods := (rawMethods a)(ToLower mapLower signature \<mapsto> signature)\<rparr>
          in case parseNewMethod signature of
               Inl p \<Rightarrow> Inl (p, a)
             | Inr newMethod \<Rightarrow>
                 let a = a\<lparr>methods := methods a @ [newMethod]\<rparr>
                 in case repackAbi marshal abiJSON (methods a) of
                      Inl err \<Rightarrow> Inl (PanicError err, a)
                    | Inr newAbi \<Rightarrow> Inr (a\<lparr>contractAbi := newAbi\<rparr>))"

text \<open>
  \<open>AddCall\<close>: \<open>pack\<close> is the method \<open>Pack\<close> of the interface description and
  \<open>hexToAddress\<close> is \<open>common.HexToAddress\<close>.
\<close>

definition AddCall ::
  "('abi \<Rightarrow> string \<Rightarrow> 'v list \<Rightarrow> error + bytes) \<Rightarrow> (string \<Rightarrow> 'addr) \<Rightarrow>
   ('abi, 'addr) contract \<Rightarrow> string \<Rightarrow> string \<Rightarrow> string \<Rightarrow> 'v list \<Rightarrow>
   panic \<times> ('abi, 'addr) contract + ('abi, 'addr) contract"
where
  "AddCall pack hexToAddress a callName contractAddress method args =
     (case pack (contractAbi a) method args of
        Inl err \<Rightarrow> Inl (PanicError err, a)
      | Inr callData \<Rightarrow>
          Inr (a\<lparr>calls := calls a @
                 [\<lparr>Method = method, Target = hexToAddress contractAddress,
                   core_Call.Name = callName, CallData = callData\<rparr>]\<rparr>))"

definition ClearCall :: "('abi, 'addr) contract \<Rightarrow> ('abi, 'addr) contract" where
  "ClearCall a = a\<lparr>calls := []\<rparr>"

text \<open>
  Modelled from the spec: what \<open>Execute\<close> of package \<open>core\<close> returns, namely the block
  height read, the raw return bytes per label and an error or nil. The map holds the
  field \<open>ReturnData\<close> of each response; reading a label that is not in the map gives
  the zero value, the empty byte string.
\<close>

definition ReturnData :: "(string \<rightharpoonup> bytes) \<Rightarrow> string \<Rightarrow> bytes" where
  "ReturnData results name = (case results name of None \<Rightarrow> [] | Some d \<Rightarrow> d)"

text \<open>
  The loop of \<open>Call\<close>. \<open>unpack\<close> is the method \<open>Unpack\<close> of the interface description;
  it returns the pair of the values and an error or nil, and the loop stores the
  values and drops the error.
\<close>

primrec unpackCalls ::
  "('abi \<Rightarrow> string \<Rightarrow> bytes \<Rightarrow> 'v list \<times> error option) \<Rightarrow> 'abi \<Rightarrow> (string \<rightharpoonup> bytes) \<Rightarrow>
   (string \<rightharpoonup> 'v list) \<Rightarrow> 'addr core_Call list \<Rightarrow> (string \<rightharpoonup> 'v list)"
where
  "unpackCalls unpack abi results res [] = res"
| "unpackCalls unpack abi results res (call # rest) =
     unpackCalls unpack abi results
       (res(core_Call.Name call \<mapsto>
              fst (unpack abi (Method call) (ReturnData results (core_Call.Name call)))))
       rest"

text \<open>
  \<open>Call\<close> returns the session after it, the block height, the map of the results and
  the error of the execution. A block height is a \<open>*big.Int\<close>: an integer or nil.
\<close>

definition Call ::
  "('addr core_Call list \<Rightarrow> int option \<Rightarrow> int option \<times> (string \<rightharpoonup> bytes) \<times> error option) \<Rightarrow>
   ('abi \<Rightarrow> string \<Rightarrow> bytes \<Rightarrow> 'v list \<times> error option) \<Rightarrow>
   ('abi, 'addr) contract \<Rightarrow> int option \<Rightarrow>
   ('abi, 'addr) contract \<times> int option \<times> (string \<rightharpoonup> 'v list) \<times> error option"
where
  "Call execute unpack a blockNumber =
     (case execute (calls a) blockNumber of
        (blockNumber, results, err) \<Rightarrow>
          let res = unpackCalls unpack (contractAbi a) results Map.empty (calls a)
          in (ClearCall a, blockNumber, res, err))"

type_synonym 'v callRequest = "string \<times> string \<times> string \<times> 'v list"

definition requestName :: "'v callRequest \<Rightarrow> string" where
  "requestName r = fst r"

definition requestMethod :: "'v callRequest \<Rightarrow> string" where
  "requestMethod r = fst (snd (snd r))"

text \<open>
  A chain of calls of \<open>AddCall\<close>, as in \<open>a.AddCall(...).AddCall(...)\<close>: each request
  gives the label, the address, the method name and the arguments of one call, and the
  chain stops at the first panic. \<open>AddCalls\<close> is not a function of the source; it
  states what a batch of N added calls is.
\<close>

primrec AddCalls ::
  "('abi \<Rightarrow> string \<Rightarrow> 'v list \<Rightarrow> error + bytes) \<Rightarrow> (string \<Rightarrow> 'addr) \<Rightarrow>
   ('abi, 'addr) contract \<Rightarrow> 'v callRequest list \<Rightarrow>
   panic \<times> ('abi, 'addr) contract + ('abi, 'addr) contract"
where
  "AddCalls pack hexToAddress a [] = Inr a"
| "AddCalls pack hexToAddress a (r # rs) =
     (case r of (callName, contractAddress, method, args) \<Rightarrow>
        (case AddCall pack hexToAddress a callName contractAddress method args of
           Inl p \<Rightarrow> Inl p
         | Inr a' \<Rightarrow> AddCalls pack hexToAddress a' rs))"

text \<open>Two signatures are equal up to ASCII case when lowering the letters A..Z makes them equal.\<close>

definition equalFoldASCII :: "string \<Rightarrow> string \<Rightarrow> bool" where
  "equalFoldASCII s t = (map lowerByte s = map lowerByte t)"

section \<open>Facts about the string primitives\<close>

lemma Index_notin: "c \<in> set sep \<Longrightarrow> c \<notin> set s \<Longrightarrow> Index s sep = None"
proof (induction s)
  case Nil
  then show ?case by auto
next
  case (Cons x xs)
  from Cons.prems have "\<not> prefix sep (x # xs)"
    by (meson set_mono_prefix subsetD)
  with Cons show ?case by simp
qed

lemma Index_skip:
  "sep \<noteq> [] \<Longrightarrow> hd sep \<notin> set a \<Longrightarrow> Index (a @ b) sep = map_option (\<lambda>m. length a + m) (Index b sep)"
proof (induction a)
  case Nil
  then show ?case by (simp add: option.map_ident)
next
  case (Cons x xs)
  from Cons.prems have "\<not> prefix sep ((x # xs) @ b)"
    by (cases sep) auto
  with Cons show ?case by (simp add: option.map_comp comp_def)
qed

lemma Index_here: "Index (sep @ b) sep = Some 0"
proof (cases "sep @ b")
  case Nil
  then show ?thesis by simp
next
  case (Cons x xs)
  have "prefix sep (sep @ b)" by simp
  with Cons show ?thesis by simp
qed

lemma Index_first:
  "sep \<noteq> [] \<Longrightarrow> hd sep \<notin> set a \<Longrightarrow> Index (a @ sep @ b) sep = Some (length a)"
  by (simp add: Index_skip Index_here)

lemma Index_char: "Index s [c] = None \<longleftrightarrow> c \<notin> set s"
  by (induction s) auto

lemma Split_none: "sep \<noteq> [] \<Longrightarrow> Index s sep = None \<Longrightarrow> Split s sep = [s]"
  by (simp add: Split.simps)

lemma Split_first:
  "sep \<noteq> [] \<Longrightarrow> hd sep \<notin> set a \<Longrightarrow> Split (a @ sep @ b) sep = a # Split b sep"
  by (subst Split.simps) (simp add: Index_first)

lemma Split_not_Nil: "sep \<noteq> [] \<Longrightarrow> Split s sep \<noteq> []"
  by (subst Split.simps) (simp split: option.splits)


lemma Replace_first:
  "old \<noteq> [] \<Longrightarrow> hd old \<notin> set a \<Longrightarrow> Replace (a @ old @ b) old new (Suc 0) = a @ new @ b"
  by (simp add: Index_first)

lemma appendInputs_eq:
  "appendInputs m ps = m\<lparr>Inputs := Inputs m @ map typeArgument (filter (\<lambda>p. p \<noteq> []) ps)\<rparr>"
  by (induction ps arbitrary: m) simp_all

lemma appendOutputs_eq:
  "appendOutputs m ps = m\<lparr>Outputs := Outputs m @ map typeArgument ps\<rparr>"
  by (induction ps arbitrary: m) simp_all


lemma Split_length: "sep \<noteq> [] \<Longrightarrow> length (Split s sep) \<le> 1 \<longleftrightarrow> Index s sep = None"
  using Split_not_Nil [of sep]
  by (subst Split.simps) (auto split: option.splits simp: Suc_le_eq)

lemma idx_0: "idx (x # xs) 0 = Inr x"
  by (simp add: idx_def)

lemma idx_1: "idx (x # y # ys) 1 = Inr y"
  by (simp add: idx_def)

lemma idx_1_single: "idx [x] 1 = Inl (IndexOutOfRange 1 1)"
  by (simp add: idx_def)

lemma Split_paren_head:
  "CHR ''('' \<notin> set head \<Longrightarrow> Split (head @ ''('' @ rest) ''('' = head # Split rest ''(''"
  using Split_first [of "''(''" head rest] by simp

lemma Split_single_piece: "c \<notin> set s \<Longrightarrow> Split s [c] = [s]"
  by (simp add: Split_none Index_char)

lemma parse_multi:
  assumes head: "CHR ''('' \<notin> set head" "CHR '')'' \<notin> set head"
    and ins: "CHR ''('' \<notin> set ins" "CHR '')'' \<notin> set ins"
    and outs: "CHR '')'' \<notin> set outs"
  shows "parseNewMethod (head @ ''('' @ ins @ '')('' @ outs @ '')'') =
    Inr \<lparr>Method.Name = TrimSpace (Replace head ''function'' [] 1),
         Inputs = map typeArgument (filter (\<lambda>p. p \<noteq> []) (Split ins '','')),
         Outputs = map typeArgument (Split outs '',''),
         Type = ''function'', StateMutability = ''view''\<rparr>"
proof -
  let ?sig = "head @ ''('' @ ins @ '')('' @ outs @ '')''"
  have paths: "Split ?sig ''('' = head # Split (ins @ '')('' @ outs @ '')'') ''(''"
    using head(1) by (rule Split_paren_head)
  have len: "\<not> length (Split ?sig ''('') \<le> 1"
    by (subst Split_length) (simp_all add: Index_char)
  have first: "idx (Split ?sig ''('') 0 = Inr head"
    unfolding paths by (rule idx_0)
  have pos: "Index ((head @ ''('' @ ins) @ '')('' @ outs @ '')'') '')('' = Some (length (head @ ''('' @ ins))"
    using head(2) ins(2) by (intro Index_first) auto
  then have cont: "Contains ?sig '')(''"
    by (simp add: Contains_def)
  have tail: "Split (outs @ '')'') '')('' = [outs @ '')'']"
    using outs by (intro Split_none) (simp_all add: Index_skip)
  have "Split ((head @ ''('' @ ins) @ '')('' @ outs @ '')'') '')('' = (head @ ''('' @ ins) # Split (outs @ '')'') '')(''"
    using head(2) ins(2) by (intro Split_first) auto
  then have clauses: "Split ?sig '')('' = [head @ ''('' @ ins, outs @ '')'']"
    by (simp add: tail)
  have params: "Split (head @ ''('' @ ins) ''('' = [head, ins]"
    using Split_paren_head [OF head(1), of ins] ins(1) by (simp add: Split_single_piece)
  have strip: "Replace (outs @ '')'') '')'' [] 1 = outs"
    using Replace_first [of "'')''" outs "[]" "[]"] outs by simp
  show ?thesis
    unfolding parseNewMethod_def Let_def
    by (simp only: len first cont clauses params strip if_False if_True idx_0 idx_1
        sum.case parseParamsPath_def appendInputs_eq appendOutputs_eq)
      simp
qed








lemma typeArgument_eq:
  "typeArgument = (\<lambda>p. \<lparr>Argument.Name = [], Argument.Type = TrimSpace p, InternalType = TrimSpace p\<rparr>)"
  by (rule ext) (simp add: typeArgument_def)



lemma idx_Split_0:
  "sep \<noteq> [] \<Longrightarrow>
     idx (Split s sep) 0 = Inr (case Index s sep of None \<Rightarrow> s | Some k \<Rightarrow> take k s)"
  by (subst Split.simps) (simp add: idx_def split: option.splits)

lemma idx_Split_1:
  "sep \<noteq> [] \<Longrightarrow>
     idx (Split s sep) (Suc 0) =
       (case Index s sep of
          None \<Rightarrow> Inl (IndexOutOfRange 1 1)
        | Some k \<Rightarrow> Inr (hd (Split (drop (k + length sep) s) sep)))"
  using Split_not_Nil [of sep]
  by (subst Split.simps) (auto simp: idx_def hd_conv_nth split: option.splits)

lemma Split_length_Suc:
  "sep \<noteq> [] \<Longrightarrow> length (Split s sep) \<le> Suc 0 \<longleftrightarrow> Index s sep = None"
  using Split_length [of sep s] by simp

lemma Index_Some_mem:
  "Index s sep = Some k \<Longrightarrow> c \<in> set sep \<Longrightarrow> c \<in> set s"
  using Index_notin [of c sep s] by auto

lemma Index_char_Some: "c \<in> set s \<Longrightarrow> \<exists>k. Index s [c] = Some k"
  using Index_char [of s c] by auto

lemma parse_no_paren:
  "CHR ''('' \<notin> set s \<Longrightarrow> parseNewMethod s = Inl (PanicString ''Function is invalid format!'')"
  by (simp add: parseNewMethod_def Split_length_Suc Index_char)

lemma parse_multi_ok:
  assumes "Index s '')('' = Some k" and "CHR ''('' \<in> set (take k s)"
  shows "\<exists>m. parseNewMethod s = Inr m"
proof -
  from assms(1) have "CHR ''('' \<in> set s"
    by (rule Index_Some_mem) simp
  then obtain i where "Index s ''('' = Some i"
    using Index_char_Some by blast
  moreover from assms(2) obtain j where "Index (take k s) ''('' = Some j"
    using Index_char_Some by blast
  ultimately show ?thesis
    using assms(1)
    by (simp add: parseNewMethod_def Let_def Split_length_Suc idx_Split_0 idx_Split_1
        Contains_def del: Replace.simps)
qed

lemma parse_multi_fail:
  assumes "Index s '')('' = Some k" and "CHR ''('' \<notin> set (take k s)"
  shows "parseNewMethod s = Inl (IndexOutOfRange 1 1)"
proof -
  from assms(1) have "CHR ''('' \<in> set s"
    by (rule Index_Some_mem) simp
  then obtain i where "Index s ''('' = Some i"
    using Index_char_Some by blast
  moreover from assms(2) have "Index (take k s) ''('' = None"
    by (simp add: Index_char)
  ultimately show ?thesis
    using assms(1)
    by (simp add: parseNewMethod_def Let_def Split_length_Suc idx_Split_0 idx_Split_1
        Contains_def del: Replace.simps)
qed

lemma parse_single_ok:
  assumes "Index s '')('' = None" and "Index s '')'' = Some k" and "CHR ''('' \<in> set (take k s)"
  shows "\<exists>m. parseNewMethod s = Inr m"
proof -
  from assms(3) have "CHR ''('' \<in> set s"
    by (rule in_set_takeD)
  then obtain i where "Index s ''('' = Some i"
    using Index_char_Some by blast
  moreover from assms(3) obtain j where "Index (take k s) ''('' = Some j"
    using Index_char_Some by blast
  ultimately show ?thesis
    using assms(1,2)
    by (simp add: parseNewMethod_def Let_def Split_length_Suc idx_Split_0 idx_Split_1
        Contains_def del: Replace.simps)
qed

lemma parse_single_fail:
  assumes "CHR ''('' \<in> set s" and "Index s '')('' = None"
    and "case Index s '')'' of None \<Rightarrow> True | Some k \<Rightarrow> CHR ''('' \<notin> set (take k s)"
  shows "parseNewMethod s = Inl (IndexOutOfRange 1 1)"
proof (cases "Index s '')''")
  case None
  moreover from assms(1) obtain j where "Index s ''('' = Some j"
    using Index_char_Some by blast
  ultimately show ?thesis
    using assms(2)
    by (simp add: parseNewMethod_def Let_def Split_length_Suc idx_Split_0 idx_Split_1
        Contains_def del: Replace.simps)
next
  case (Some k)
  with assms(3) have "Index (take k s) ''('' = None"
    by (simp add: Index_char)
  moreover from assms(1) obtain j where "Index s ''('' = Some j"
    using Index_char_Some by blast
  ultimately show ?thesis
    using Some assms(2)
    by (simp add: parseNewMethod_def Let_def Split_length_Suc idx_Split_0 idx_Split_1
        Contains_def del: Replace.simps)
qed

section \<open>Facts about the session\<close>

lemma dom_unpackCalls:
  "dom (unpackCalls unpack abi results res cs) = dom res \<union> core_Call.Name ` set cs"
  by (induction cs arbitrary: res) auto

lemma unpackCalls_lookup:
  "unpackCalls unpack abi results res cs l =
     (if filter (\<lambda>c. core_Call.Name c = l) cs = [] then res l
      else Some (fst (unpack abi (Method (last (filter (\<lambda>c. core_Call.Name c = l) cs)))
                   (ReturnData results l))))"
  by (induction cs arbitrary: res) auto

lemma filter_distinct_key:
  "distinct (map f xs) \<Longrightarrow> c \<in> set xs \<Longrightarrow> filter (\<lambda>x. f x = f c) xs = [c]"
proof (induction xs)
  case Nil
  then show ?case by simp
next
  case (Cons x xs)
  show ?case
  proof (cases "x = c")
    case True
    with Cons.prems have "filter (\<lambda>x. f x = f c) xs = []"
      by (force simp: filter_empty_conv image_iff)
    with True show ?thesis by simp
  next
    case False
    with Cons.prems have "c \<in> set xs" and "f x \<noteq> f c"
      by auto
    with Cons show ?thesis by simp
  qed
qed

lemma Call_state: "fst (Call execute unpack a blockNumber) = ClearCall a"
  by (simp add: Call_def split: prod.splits)

lemma Call_keys:
  "dom (fst (snd (snd (Call execute unpack a blockNumber)))) = core_Call.Name ` set (calls a)"
  by (simp add: Call_def dom_unpackCalls split: prod.splits)

lemma AddCall_batch:
  assumes "AddCall pack hexToAddress a callName contractAddress method args = Inr a'"
  shows "contractAbi a' = contractAbi a \<and>
         (\<exists>c. calls a' = calls a @ [c] \<and> core_Call.Name c = callName \<and> Method c = method)"
  using assms by (auto simp: AddCall_def split: sum.splits)

lemma AddCalls_batch:
  "AddCalls pack hexToAddress a reqs = Inr a' \<Longrightarrow>
     contractAbi a' = contractAbi a \<and>
     (\<exists>cs. calls a' = calls a @ cs \<and>
           map core_Call.Name cs = map requestName reqs \<and>
           map Method cs = map requestMethod reqs)"
proof (induction reqs arbitrary: a)
  case Nil
  then show ?case by simp
next
  case (Cons r rs)
  obtain label addr meth vals
    where r: "r = (label, addr, meth, vals)"
    by (cases r) auto
  from Cons.prems r obtain b
    where b: "AddCall pack hexToAddress a label addr meth vals = Inr b"
      and rest: "AddCalls pack hexToAddress b rs = Inr a'"
    by (auto split: sum.splits)
  from AddCall_batch [OF b] obtain c
    where abi: "contractAbi b = contractAbi a" and c: "calls b = calls a @ [c]"
      "core_Call.Name c = label" "Method c = meth"
    by blast
  from Cons.IH [OF rest] obtain cs
    where abi': "contractAbi a' = contractAbi b" and cs: "calls a' = calls b @ cs"
      "map core_Call.Name cs = map requestName rs" "map Method cs = map requestMethod rs"
    by blast
  have "calls a' = calls a @ (c # cs)"
    using c(1) cs(1) by simp
  moreover have "map core_Call.Name (c # cs) = map requestName (r # rs)"
    using c(2) cs(2) r by (simp add: requestName_def)
  moreover have "map Method (c # cs) = map requestMethod (r # rs)"
    using c(3) cs(3) r by (simp add: requestMethod_def)
  ultimately show ?case
    using abi abi' by metis
qed

lemma last_filter_key:
  assumes "map f cs = map g rs" and "map h cs = map k rs"
    and "filter (\<lambda>r. g r = l) rs \<noteq> []"
  shows "h (last (filter (\<lambda>c. f c = l) cs)) = k (last (filter (\<lambda>r. g r = l) rs))"
  using assms
proof (induction cs arbitrary: rs)
  case Nil
  then show ?case by simp
next
  case (Cons c cs)
  then obtain r rs' where rs: "rs = r # rs'" by (cases rs) auto
  with Cons.prems have eq: "f c = g r" "h c = k r" "map f cs = map g rs'" "map h cs = map k rs'"
    by simp_all
  have same: "filter (\<lambda>c. f c = l) cs = [] \<longleftrightarrow> filter (\<lambda>r. g r = l) rs' = []"
  proof -
    have "set (map f cs) = set (map g rs')" using eq(3) by simp
    then have "f ` set cs = g ` set rs'" by simp
    then show ?thesis by (auto simp: filter_empty_conv) (metis imageE imageI)+
  qed
  show ?case
  proof (cases "filter (\<lambda>r. g r = l) rs' = []")
    case True
    with Cons.prems(3) rs have "g r = l" by (auto split: if_splits)
    with True same eq rs show ?thesis by simp
  next
    case False
    from Cons.IH [OF eq(3,4) False] False same eq rs show ?thesis by simp
  qed
qed

lemma Call_batch_map:
  assumes "execute (calls a) blockNumber = (blockNumber', results, err)"
  shows "\<exists>res. Call execute unpack a blockNumber = (ClearCall a, blockNumber', res, err) \<and>
           dom res = core_Call.Name ` set (calls a) \<and>
           (\<forall>l \<in> core_Call.Name ` set (calls a).
              res l = Some (fst (unpack (contractAbi a)
                (Method (last (filter (\<lambda>c. core_Call.Name c = l) (calls a))))
                (ReturnData results l)))) \<and>
           (distinct (map core_Call.Name (calls a)) \<longrightarrow>
              (\<forall>c \<in> set (calls a).
                 res (core_Call.Name c) =
                   Some (fst (unpack (contractAbi a) (Method c)
                     (ReturnData results (core_Call.Name c))))))"
proof -
  let ?res = "unpackCalls unpack (contractAbi a) results Map.empty (calls a)"
  have call: "Call execute unpack a blockNumber = (ClearCall a, blockNumber', ?res, err)"
    by (simp add: Call_def assms)
  have keys: "dom ?res = core_Call.Name ` set (calls a)"
    by (simp add: dom_unpackCalls)
  have lookup: "?res l = Some (fst (unpack (contractAbi a)
        (Method (last (filter (\<lambda>c. core_Call.Name c = l) (calls a)))) (ReturnData results l)))"
    if "l \<in> core_Call.Name ` set (calls a)" for l
  proof -
    from that have "filter (\<lambda>c. core_Call.Name c = l) (calls a) \<noteq> []"
      by (auto simp: filter_empty_conv)
    then show ?thesis
      by (simp add: unpackCalls_lookup)
  qed
  have uniq: "?res (core_Call.Name c) = Some (fst (unpack (contractAbi a) (Method c)
        (ReturnData results (core_Call.Name c))))"
    if d: "distinct (map core_Call.Name (calls a))" and c: "c \<in> set (calls a)" for c
    using lookup [of "core_Call.Name c"] c filter_distinct_key [OF d c] by simp
  from call keys lookup uniq show ?thesis by blast
qed

lemma lowerByte_ascii: "(of_char (lowerByte c) :: nat) < 0x80 \<longleftrightarrow> (of_char c :: nat) < 0x80"
  by (auto simp: lowerByte_def)

lemma isASCII_lower: "isASCII (map lowerByte s) = isASCII s"
  by (simp add: isASCII_def lowerByte_ascii)

lemma ToLower_equalFold:
  assumes "equalFoldASCII s t"
    and "\<forall>x y. equalFoldASCII x y \<longrightarrow> mapLower x = mapLower y"
  shows "ToLower mapLower s = ToLower mapLower t"
proof -
  from assms(1) have eq: "map lowerByte s = map lowerByte t"
    by (simp add: equalFoldASCII_def)
  then have "isASCII s = isASCII t"
    using isASCII_lower [of s] isASCII_lower [of t] by simp
  moreover from assms have "mapLower s = mapLower t" by blast
  ultimately show ?thesis by (simp add: ToLower_def eq)
qed

lemma AddMethod_registers:
  "AddMethod mapLower marshal abiJSON a signature = Inr a' \<Longrightarrow>
     rawMethods a' (ToLower mapLower signature) = Some signature"
  by (auto simp: AddMethod_def Let_def split: option.splits sum.splits)

section \<open>The parser on well-formed signatures\<close>




text \<open>
  Claim C5. The signatures \<open>foo()(uint256)\<close> and \<open>foo()uint256\<close>, which have no
  argument, give a method with the empty list of inputs: the one token that splitting
  the empty parameter path yields is the empty string, and the loop skips it.
\<close>

theorem parseNewMethod_zero_arguments:
  "parseNewMethod ''foo()(uint256)'' =
     Inr \<lparr>Method.Name = ''foo'', Inputs = [],
          Outputs = [\<lparr>Argument.Name = [], Argument.Type = ''uint256'', InternalType = ''uint256''\<rparr>],
          Type = ''function'', StateMutability = ''view''\<rparr> \<and>
   parseNewMethod ''foo()uint256'' =
     Inr \<lparr>Method.Name = ''foo'', Inputs = [],
          Outputs = [\<lparr>Argument.Name = [], Argument.Type = ''uint256'', InternalType = ''uint256''\<rparr>],
          Type = ''function'', StateMutability = ''view''\<rparr>"
  by code_simp

text \<open>
  Claim C6 fails on the code as it is stated: a signature with an opening parenthesis
  can still abort. \<open>foo(\<close> has one and no closing parenthesis, and the parser stops
  with the run-time panic of an index out of range.
\<close>

theorem parseNewMethod_aborts_counterexample:
  "CHR ''('' \<in> set ''foo('' \<and> parseNewMethod ''foo('' = Inl (IndexOutOfRange 1 1)"
  by code_simp

text \<open>
  Claim C6, amended. \<open>parseNewMethod\<close> raises its own panic
  \<open>Function is invalid format!\<close> exactly when the signature has no opening parenthesis.
  It returns a method exactly when an opening parenthesis stands before the first
  \<open>)(\<close>, or, in a signature without \<open>)(\<close>, before the first closing parenthesis.
  In every other case it aborts with the run-time panic of the index 1 out of range in
  a list of length 1.
\<close>

theorem parseNewMethod_aborts:
  "(parseNewMethod s = Inl (PanicString ''Function is invalid format!'') \<longleftrightarrow> CHR ''('' \<notin> set s) \<and>
   ((\<exists>m. parseNewMethod s = Inr m) \<longleftrightarrow>
      (case Index s '')('' of
         Some k \<Rightarrow> CHR ''('' \<in> set (take k s)
       | None \<Rightarrow> (case Index s '')'' of Some k \<Rightarrow> CHR ''('' \<in> set (take k s) | None \<Rightarrow> False))) \<and>
   ((\<exists>m. parseNewMethod s = Inr m) \<or>
    parseNewMethod s = Inl (PanicString ''Function is invalid format!'') \<or>
    parseNewMethod s = Inl (IndexOutOfRange 1 1))"
proof (cases "CHR ''('' \<in> set s")
  case False
  then have inv: "parseNewMethod s = Inl (PanicString ''Function is invalid format!'')"
    by (simp add: parse_no_paren)
  from False have "Index s '')('' = None"
    by (intro Index_notin [of "CHR ''(''"]) simp_all
  moreover from False have "case Index s '')'' of None \<Rightarrow> True | Some k \<Rightarrow> CHR ''('' \<notin> set (take k s)"
    by (auto split: option.splits dest: in_set_takeD)
  ultimately show ?thesis using False inv
    by (auto split: option.splits)
next
  case True
  show ?thesis
  proof (cases "Index s '')(''")
    case (Some k)
    show ?thesis
    proof (cases "CHR ''('' \<in> set (take k s)")
      case t: True
      with parse_multi_ok [OF Some t] True Some show ?thesis by auto
    next
      case f: False
      with parse_multi_fail [OF Some f] True Some show ?thesis by simp
    qed
  next
    case None
    show ?thesis
    proof (cases "case Index s '')'' of None \<Rightarrow> True | Some k \<Rightarrow> CHR ''('' \<notin> set (take k s)")
      case t: True
      with parse_single_fail [OF True None t] True None show ?thesis
        by (auto split: option.splits)
    next
      case f: False
      then obtain k where k: "Index s '')'' = Some k" "CHR ''('' \<in> set (take k s)"
        by (auto split: option.splits)
      with parse_single_ok [OF None k] True None show ?thesis by auto
    qed
  qed
qed

text \<open>
  Claim C7. On the path of the signatures with two clauses, \<open>head(ins)(outs)\<close>, the
  inputs are the tokens of \<open>ins\<close> between commas without the empty ones, and the outputs
  are all the tokens of \<open>outs\<close> between commas, the empty ones too; every token kept
  becomes an argument whose type is the token trimmed of white space. Here \<open>outs\<close> has no
  closing parenthesis, so that the one the parser removes from the output clause is the
  trailing one.
\<close>

theorem parseNewMethod_empty_tokens:
  assumes "CHR ''('' \<notin> set head" "CHR '')'' \<notin> set head"
    and "CHR ''('' \<notin> set ins" "CHR '')'' \<notin> set ins"
    and "CHR '')'' \<notin> set outs"
  shows "\<exists>m. parseNewMethod (head @ ''('' @ ins @ '')('' @ outs @ '')'') = Inr m \<and>
             Inputs m =
               map (\<lambda>p. \<lparr>Argument.Name = [], Argument.Type = TrimSpace p, InternalType = TrimSpace p\<rparr>)
                 (filter (\<lambda>p. p \<noteq> []) (Split ins '','')) \<and>
             Outputs m =
               map (\<lambda>p. \<lparr>Argument.Name = [], Argument.Type = TrimSpace p, InternalType = TrimSpace p\<rparr>)
                 (Split outs '','')"
  unfolding parse_multi [OF assms] by (simp add: typeArgument_eq)

text \<open>
  The theorem at \<open>foo(uint256)(uint256,)\<close>, with one input and two outputs, the second
  of the empty type, and at \<open>foo(uint256,, address )( uint256 , )\<close>, where the empty
  input token is dropped, the blank output token is kept, and the others are trimmed.
\<close>

theorem parseNewMethod_empty_tokens_witness:
  "(\<exists>m. parseNewMethod ''foo(uint256)(uint256,)'' = Inr m \<and>
       Inputs m = [\<lparr>Argument.Name = [], Argument.Type = ''uint256'', InternalType = ''uint256''\<rparr>] \<and>
       Outputs m = [\<lparr>Argument.Name = [], Argument.Type = ''uint256'', InternalType = ''uint256''\<rparr>,
                    \<lparr>Argument.Name = [], Argument.Type = [], InternalType = []\<rparr>]) \<and>
   (\<exists>m. parseNewMethod ''foo(uint256,, address )( uint256 , )'' = Inr m \<and>
       Inputs m = [\<lparr>Argument.Name = [], Argument.Type = ''uint256'', InternalType = ''uint256''\<rparr>,
                   \<lparr>Argument.Name = [], Argument.Type = ''address'', InternalType = ''address''\<rparr>] \<and>
       Outputs m = [\<lparr>Argument.Name = [], Argument.Type = ''uint256'', InternalType = ''uint256''\<rparr>,
                    \<lparr>Argument.Name = [], Argument.Type = [], InternalType = []\<rparr>])"
proof -
  have i1: "Split ''uint256'' '','' = [''uint256'']" by code_simp
  have o1: "Split ''uint256,'' '','' = [''uint256'', []]" by code_simp
  have i2: "Split ''uint256,, address '' '','' = [''uint256'', [], '' address '']" by code_simp
  have o2: "Split '' uint256 , '' '','' = ['' uint256 '', '' '']" by code_simp
  have t: "TrimSpace ''uint256'' = ''uint256''" "TrimSpace [] = []"
    "TrimSpace '' address '' = ''address''" "TrimSpace '' uint256 '' = ''uint256''"
    "TrimSpace '' '' = []"
    by code_simp+
  have "\<exists>m. parseNewMethod ''foo(uint256)(uint256,)'' = Inr m \<and>
       Inputs m = [\<lparr>Argument.Name = [], Argument.Type = ''uint256'', InternalType = ''uint256''\<rparr>] \<and>
       Outputs m = [\<lparr>Argument.Name = [], Argument.Type = ''uint256'', InternalType = ''uint256''\<rparr>,
                    \<lparr>Argument.Name = [], Argument.Type = [], InternalType = []\<rparr>]"
    using parseNewMethod_empty_tokens [of "''foo''" "''uint256''" "''uint256,''"]
    by (simp add: i1 o1 t)
  moreover have "\<exists>m. parseNewMethod ''foo(uint256,, address )( uint256 , )'' = Inr m \<and>
       Inputs m = [\<lparr>Argument.Name = [], Argument.Type = ''uint256'', InternalType = ''uint256''\<rparr>,
                   \<lparr>Argument.Name = [], Argument.Type = ''address'', InternalType = ''address''\<rparr>] \<and>
       Outputs m = [\<lparr>Argument.Name = [], Argument.Type = ''uint256'', InternalType = ''uint256''\<rparr>,
                    \<lparr>Argument.Name = [], Argument.Type = [], InternalType = []\<rparr>]"
    using parseNewMethod_empty_tokens [of "''foo''" "''uint256,, address ''" "'' uint256 , ''"]
    by (simp add: i2 o2 t)
  ultimately show ?thesis by (rule conjI)
qed

text \<open>
  Claim C8: the name is the text before the first opening parenthesis without a
  leading keyword \<open>function\<close>, and a name such as \<open>myfunction\<close> stays as it is. The
  code does not do that. It removes the first occurrence of the word \<open>function\<close>
  wherever it stands in that text, and the signature \<open>myfunction(uint256)(uint256)\<close>
  gives a method of the name \<open>my\<close>.
\<close>

theorem parseNewMethod_myfunction:
  "parseNewMethod ''myfunction(uint256)(uint256)'' =
     Inr \<lparr>Method.Name = ''my'',
          Inputs = [\<lparr>Argument.Name = [], Argument.Type = ''uint256'', InternalType = ''uint256''\<rparr>],
          Outputs = [\<lparr>Argument.Name = [], Argument.Type = ''uint256'', InternalType = ''uint256''\<rparr>],
          Type = ''function'', StateMutability = ''view''\<rparr>"
  by code_simp

text \<open>
  Claim C9. The loop over the input parameters compares the token as it is with the
  empty string and trims it afterwards: a list of parameters gives one input for every
  token that is not literally empty. So \<open>foo( )(uint256)\<close>, whose one token is a space,
  has one input, of the empty type.
\<close>

theorem parseNewMethod_blank_input:
  "Inputs (appendInputs m params) =
     Inputs m @ map (\<lambda>p. \<lparr>Argument.Name = [], Argument.Type = TrimSpace p,
                           InternalType = TrimSpace p\<rparr>) (filter (\<lambda>p. p \<noteq> []) params) \<and>
   parseNewMethod ''foo( )(uint256)'' =
     Inr \<lparr>Method.Name = ''foo'',
          Inputs = [\<lparr>Argument.Name = [], Argument.Type = [], InternalType = []\<rparr>],
          Outputs = [\<lparr>Argument.Name = [], Argument.Type = ''uint256'', InternalType = ''uint256''\<rparr>],
          Type = ''function'', StateMutability = ''view''\<rparr>"
proof
  have "typeArgument = (\<lambda>p. \<lparr>Argument.Name = [], Argument.Type = TrimSpace p,
                               InternalType = TrimSpace p\<rparr>)"
    by (rule ext) (simp add: typeArgument_def)
  then show "Inputs (appendInputs m params) =
     Inputs m @ map (\<lambda>p. \<lparr>Argument.Name = [], Argument.Type = TrimSpace p,
                           InternalType = TrimSpace p\<rparr>) (filter (\<lambda>p. p \<noteq> []) params)"
    by (simp add: appendInputs_eq)
next
  show "parseNewMethod ''foo( )(uint256)'' =
     Inr \<lparr>Method.Name = ''foo'',
          Inputs = [\<lparr>Argument.Name = [], Argument.Type = [], InternalType = []\<rparr>],
          Outputs = [\<lparr>Argument.Name = [], Argument.Type = ''uint256'', InternalType = ''uint256''\<rparr>],
          Type = ''function'', StateMutability = ''view''\<rparr>"
    by code_simp
qed

section \<open>The session\<close>

text \<open>
  Claim C2. Start with an empty pending batch and add N calls with \<open>AddCall\<close>, none of
  which panics. \<open>Call\<close> then hands the batch to the aggregator primitive and returns a
  map whose keys are exactly the labels given to \<open>AddCall\<close>. Each label is mapped to
  the values that \<open>Unpack\<close> gives for the raw bytes the aggregator returned under this
  label, decoded with the method of the last request that carries the label; when the
  labels are distinct, that is the method of the request itself. When the decoding
  succeeds these values are the decoded outputs.
\<close>

theorem Call_result_map:
  assumes "calls a0 = []"
    and "AddCalls pack hexToAddress a0 reqs = Inr a"
    and "execute (calls a) blockNumber = (blockNumber', results, err)"
  shows "\<exists>res. Call execute unpack a blockNumber = (ClearCall a, blockNumber', res, err) \<and>
           dom res = requestName ` set reqs \<and>
           (\<forall>l \<in> requestName ` set reqs.
              res l = Some (fst (unpack (contractAbi a0)
                (requestMethod (last (filter (\<lambda>r. requestName r = l) reqs)))
                (ReturnData results l)))) \<and>
           (distinct (map requestName reqs) \<longrightarrow>
              (\<forall>r \<in> set reqs.
                 res (requestName r) =
                   Some (fst (unpack (contractAbi a0) (requestMethod r)
                     (ReturnData results (requestName r))))))"
proof -
  from AddCalls_batch [OF assms(2)] assms(1)
  have abi: "contractAbi a = contractAbi a0"
    and names: "map core_Call.Name (calls a) = map requestName reqs"
    and meths: "map Method (calls a) = map requestMethod reqs"
    by auto
  from Call_batch_map [of execute a blockNumber blockNumber' results err unpack]
    assms(3) obtain res
    where call: "Call execute unpack a blockNumber = (ClearCall a, blockNumber', res, err)"
      and keys: "dom res = core_Call.Name ` set (calls a)"
      and look: "\<forall>l \<in> core_Call.Name ` set (calls a).
              res l = Some (fst (unpack (contractAbi a)
                (Method (last (filter (\<lambda>c. core_Call.Name c = l) (calls a))))
                (ReturnData results l)))"
    by blast
  have labels: "core_Call.Name ` set (calls a) = requestName ` set reqs"
    using arg_cong [OF names, of set] by simp
  have lookup: "res l = Some (fst (unpack (contractAbi a0)
        (requestMethod (last (filter (\<lambda>r. requestName r = l) reqs))) (ReturnData results l)))"
    if l: "l \<in> requestName ` set reqs" for l
  proof -
    from l have "filter (\<lambda>r. requestName r = l) reqs \<noteq> []"
      by (auto simp: filter_empty_conv)
    from last_filter_key [OF names meths this]
    have key: "Method (last (filter (\<lambda>c. core_Call.Name c = l) (calls a))) =
        requestMethod (last (filter (\<lambda>r. requestName r = l) reqs))" .
    from l labels have "l \<in> core_Call.Name ` set (calls a)" by simp
    with look have "res l = Some (fst (unpack (contractAbi a)
        (Method (last (filter (\<lambda>c. core_Call.Name c = l) (calls a)))) (ReturnData results l)))"
      by (rule bspec)
    then show ?thesis by (simp only: key abi)
  qed
  have uniq: "res (requestName r) = Some (fst (unpack (contractAbi a0) (requestMethod r)
        (ReturnData results (requestName r))))"
    if d: "distinct (map requestName reqs)" and r: "r \<in> set reqs" for r
    using lookup [of "requestName r"] r filter_distinct_key [OF d r] by simp
  from call keys labels lookup uniq show ?thesis by auto
qed

text \<open>
  The theorem at a new session to which the calls \<open>ts\<close> of \<open>totalSupply\<close> and \<open>bal\<close>
  of \<open>balanceOf\<close> are added. The aggregator is mocked to return the 32-byte words of
  1000000 and of 5, and the decoder reads a word of 32 bytes as a big-endian integer
  and rejects any other length.
\<close>

theorem Call_result_map_witness:
  "\<exists>a res.
     AddCalls (\<lambda>(abi :: unit) method (args :: int list). Inr []) (\<lambda>s. s)
       (NewContractBuilder ())
       [(''ts'', ''0xAAA'', ''totalSupply'', []), (''bal'', ''0xBBB'', ''balanceOf'', [7])] = Inr a \<and>
     Call (\<lambda>cs bn. (Some 100, [''ts'' \<mapsto> replicate 29 0 @ [0x0F, 0x42, 0x40],
                                ''bal'' \<mapsto> replicate 31 0 @ [0x05]], None))
       (\<lambda>(abi :: unit) method data.
          if length data = 32 then ([foldl (\<lambda>n b. 256 * n + uint b) 0 data], None)
          else ([], Some ''abi: improperly formatted output''))
       a None = (ClearCall a, Some 100, res, None) \<and>
     dom res = {''ts'', ''bal''} \<and>
     res ''ts'' = Some [1000000 :: int] \<and> res ''bal'' = Some [5]"
proof -
  let ?pack = "\<lambda>(abi :: unit) (method :: string) (args :: int list). Inr [] :: error + bytes"
  let ?reqs = "[(''ts'', ''0xAAA'', ''totalSupply'', []), (''bal'', ''0xBBB'', ''balanceOf'', [7 :: int])]"
  let ?w1 = "replicate 29 0 @ [0x0F, 0x42, 0x40] :: bytes"
  let ?w2 = "replicate 31 0 @ [0x05] :: bytes"
  let ?results = "[''ts'' \<mapsto> ?w1, ''bal'' \<mapsto> ?w2]"
  let ?ex = "\<lambda>(cs :: string core_Call list) (bn :: int option). (Some (100 :: int), ?results, None :: error option)"
  let ?un = "\<lambda>(abi :: unit) (method :: string) (data :: bytes).
          if length data = 32 then ([foldl (\<lambda>n b. 256 * n + uint b) 0 data], None :: error option)
          else ([] :: int list, Some ''abi: improperly formatted output'')"
  let ?new = "NewContractBuilder () :: (unit, string) contract"
  let ?a = "\<lparr>contractAbi = (), rawMethods = Map.empty, methods = [],
             calls = [\<lparr>Method = ''totalSupply'', Target = ''0xAAA'', core_Call.Name = ''ts'',
                       CallData = []\<rparr>,
                      \<lparr>Method = ''balanceOf'', Target = ''0xBBB'', core_Call.Name = ''bal'',
                       CallData = []\<rparr>]\<rparr> :: (unit, string) contract"
  have empty: "calls ?new = []"
    by (simp add: NewContractBuilder_def)
  have add: "AddCalls ?pack (\<lambda>s. s) ?new ?reqs = Inr ?a"
    by (simp add: AddCall_def NewContractBuilder_def)
  have ex: "?ex (calls ?a) None = (Some 100, ?results, None)"
    by simp
  have u1: "fst (?un () ''totalSupply'' (ReturnData ?results ''ts'')) = [1000000]"
    by code_simp
  have u2: "fst (?un () ''balanceOf'' (ReturnData ?results ''bal'')) = [5]"
    by code_simp
  have dist: "distinct (map requestName ?reqs)"
    by (simp add: requestName_def)
  from Call_result_map [of ?new ?pack "\<lambda>s. s" ?reqs ?a ?ex None "Some 100" ?results None ?un,
      OF empty add ex]
  show ?thesis
  proof (elim exE conjE)
    fix res
    assume call: "Call ?ex ?un ?a None = (ClearCall ?a, Some 100, res, None)"
      and keys: "dom res = requestName ` set ?reqs"
      and vals: "distinct (map requestName ?reqs) \<longrightarrow>
        (\<forall>r \<in> set ?reqs. res (requestName r) =
          Some (fst (?un (contractAbi ?new) (requestMethod r) (ReturnData ?results (requestName r)))))"
    from keys have k: "dom res = {''ts'', ''bal''}"
      by (simp add: requestName_def)
    from vals dist have all: "\<forall>r \<in> set ?reqs. res (requestName r) =
          Some (fst (?un (contractAbi ?new) (requestMethod r) (ReturnData ?results (requestName r))))"
      by (rule mp)
    have "(''ts'', ''0xAAA'', ''totalSupply'', []) \<in> set ?reqs" by simp
    from bspec [OF all this] have "res ''ts'' = Some [1000000]"
      by (simp only: requestName_def requestMethod_def fst_conv snd_conv u1)
    moreover have "(''bal'', ''0xBBB'', ''balanceOf'', [7]) \<in> set ?reqs" by simp
    from bspec [OF all this] have "res ''bal'' = Some [5]"
      by (simp only: requestName_def requestMethod_def fst_conv snd_conv u2)
    ultimately have "res ''ts'' = Some [1000000]" and "res ''bal'' = Some [5]"
      by simp_all
    with add call k show ?thesis
      by (intro exI [of _ ?a] exI [of _ res] conjI)
  qed
qed

text \<open>
  Claim C3. After \<open>Call\<close> the pending batch is empty, whatever the aggregator
  primitive returned, an error too. A call added afterwards is the only entry of the
  batch, the next \<open>Call\<close> returns its label alone, and empties the batch again.
\<close>

theorem Call_clears_batch:
  "calls (fst (Call execute unpack a blockNumber)) = [] \<and>
   (\<forall>callName contractAddress method args a'.
      AddCall pack hexToAddress (fst (Call execute unpack a blockNumber))
        callName contractAddress method args = Inr a' \<longrightarrow>
      map core_Call.Name (calls a') = [callName] \<and>
      map Method (calls a') = [method] \<and>
      dom (fst (snd (snd (Call execute' unpack' a' blockNumber')))) = {callName} \<and>
      calls (fst (Call execute' unpack' a' blockNumber')) = [])"
  by (auto simp: Call_state Call_keys ClearCall_def AddCall_def split: sum.splits)

text \<open>
  The theorem at a session with one pending call whose execution fails with an error;
  \<open>bal\<close> is added afterwards and is the only label of the next execution.
\<close>

theorem Call_clears_batch_witness:
  "\<exists>a'. AddCall (\<lambda>(abi :: unit) method (args :: int list). Inr []) (\<lambda>s. s)
          (fst (Call (\<lambda>cs bn. (None, Map.empty, Some ''connection refused''))
                 (\<lambda>(abi :: unit) method data. ([] :: int list, Some ''no data''))
                 \<lparr>contractAbi = (), rawMethods = Map.empty, methods = [],
                  calls = [\<lparr>Method = ''totalSupply'', Target = ''0xAAA'',
                            core_Call.Name = ''ts'', CallData = []\<rparr>]\<rparr>
                 None))
          ''bal'' ''0xBBB'' ''balanceOf'' [7] = Inr a' \<and>
        map core_Call.Name (calls a') = [''bal''] \<and>
        dom (fst (snd (snd (Call (\<lambda>cs bn. (Some 5, [''bal'' \<mapsto> [1]], None))
                 (\<lambda>(abi :: unit) method data. ([int (length data)], None)) a' None)))) = {''bal''}"
proof -
  let ?a = "\<lparr>contractAbi = (), rawMethods = Map.empty, methods = [],
                  calls = [\<lparr>Method = ''totalSupply'', Target = ''0xAAA'',
                            core_Call.Name = ''ts'', CallData = []\<rparr>]\<rparr>"
  let ?ex = "\<lambda>(cs :: string core_Call list) (bn :: int option).
      (None :: int option, Map.empty :: string \<rightharpoonup> bytes, Some ''connection refused'')"
  let ?un = "\<lambda>(abi :: unit) (method :: string) (data :: bytes). ([] :: int list, Some ''no data'')"
  let ?pack = "\<lambda>(abi :: unit) (method :: string) (args :: int list). Inr [] :: error + bytes"
  let ?a' = "\<lparr>contractAbi = (), rawMethods = Map.empty, methods = [],
                  calls = [\<lparr>Method = ''balanceOf'', Target = ''0xBBB'',
                            core_Call.Name = ''bal'', CallData = []\<rparr>]\<rparr>"
  have add: "AddCall ?pack (\<lambda>s. s) (fst (Call ?ex ?un ?a None)) ''bal'' ''0xBBB'' ''balanceOf'' [7] = Inr ?a'"
    by (simp add: AddCall_def Call_def ClearCall_def)
  note step = Call_clears_batch [of ?ex ?un ?a None ?pack "\<lambda>s. s"
      "\<lambda>cs bn. (Some 5, [''bal'' \<mapsto> [1]], None)"
      "\<lambda>(abi :: unit) method data. ([int (length data)], None)" None,
      THEN conjunct2, rule_format, OF add]
  from step have "map core_Call.Name (calls ?a') = [''bal'']" by (rule conjunct1)
  moreover from step have "dom (fst (snd (snd (Call (\<lambda>cs bn. (Some 5, [''bal'' \<mapsto> [1]], None))
                 (\<lambda>(abi :: unit) method data. ([int (length data)], None)) ?a' None)))) = {''bal''}"
    by (elim conjE)
  ultimately show ?thesis using add by (intro exI [of _ ?a'] conjI)
qed

text \<open>
  Claim C4. The raw-signature set of the session is the map \<open>rawMethods\<close>, keyed by
  the lower-cased signatures. When a signature equal to \<open>signature\<close> up to ASCII case is
  registered, \<open>AddMethod\<close> panics with the message naming the registered signature, and
  the session at the panic is the session before the call: the raw signatures, the list
  of methods and the interface description are unchanged. The hypothesis on \<open>mapLower\<close>
  is that lowering a string with bytes beyond ASCII does not depend on the case of its
  ASCII letters, as \<open>strings.Map(unicode.ToLower, s)\<close> does not.
\<close>

theorem AddMethod_duplicate:
  assumes "equalFoldASCII signature registered"
    and "\<forall>x y. equalFoldASCII x y \<longrightarrow> mapLower x = mapLower y"
    and "rawMethods a (ToLower mapLower registered) = Some existCall"
  shows "AddMethod mapLower marshal abiJSON a signature =
           Inl (PanicString (''Caller named '' @ existCall @ '' is exist on ABI''), a)"
  using assms(3) ToLower_equalFold [OF assms(1,2)] by (simp add: AddMethod_def)

text \<open>
  The theorem at a new session in which \<open>function totalSupply()(uint256)\<close> has been
  registered, and the same signature in another case.
\<close>

theorem AddMethod_duplicate_witness:
  "equalFoldASCII ''FUNCTION TotalSupply()(UINT256)'' ''function totalSupply()(uint256)'' \<and>
   (\<exists>a. AddMethod (map lowerByte) (\<lambda>ms. Inr ''[]'') (\<lambda>abiString. Inr (length abiString))
          (NewContractBuilder 0 :: (nat, string) contract) ''function totalSupply()(uint256)'' = Inr a \<and>
        AddMethod (map lowerByte) (\<lambda>ms. Inr ''[]'') (\<lambda>abiString. Inr (length abiString))
          a ''FUNCTION TotalSupply()(UINT256)'' =
          Inl (PanicString ''Caller named function totalSupply()(uint256) is exist on ABI'', a))"
proof -
  let ?reg = "''function totalSupply()(uint256)''"
  let ?dup = "''FUNCTION TotalSupply()(UINT256)''"
  let ?marshal = "\<lambda>ms :: Method list. Inr ''[]'' :: error + string"
  let ?json = "\<lambda>abiString :: string. Inr (length abiString) :: error + nat"
  have fold: "equalFoldASCII ?dup ?reg" by code_simp
  have resp: "\<forall>x y. equalFoldASCII x y \<longrightarrow> map lowerByte x = map lowerByte y"
    by (simp add: equalFoldASCII_def)
  have tsParse: "parseNewMethod ?reg =
      Inr \<lparr>Method.Name = ''totalSupply'', Inputs = [],
           Outputs = [\<lparr>Argument.Name = [], Argument.Type = ''uint256'', InternalType = ''uint256''\<rparr>],
           Type = ''function'', StateMutability = ''view''\<rparr>"
    by code_simp
  obtain a :: "(nat, string) contract"
    where a: "AddMethod (map lowerByte) ?marshal ?json (NewContractBuilder 0) ?reg = Inr a"
    by (simp add: AddMethod_def NewContractBuilder_def tsParse repackAbi_def)
  from a have key: "rawMethods a (ToLower (map lowerByte) ?reg) = Some ?reg"
    by (rule AddMethod_registers)
  from AddMethod_duplicate [OF fold resp key, of ?marshal ?json] fold a
  show ?thesis by simp
qed

text \<open>
  Claim C10. For a signature that is not registered and that the parser accepts,
  \<open>AddMethod\<close> enters the lower-cased signature into the raw signatures and appends the
  method before it compiles the interface description. When the compilation fails, it
  panics with that error, and the session at the panic holds the new signature and the
  new method, and the interface description it had before.
\<close>

theorem AddMethod_not_atomic:
  assumes "rawMethods a (ToLower mapLower signature) = None"
    and "parseNewMethod signature = Inr newMethod"
    and "repackAbi marshal abiJSON (methods a @ [newMethod]) = Inl err"
  shows "\<exists>a'. AddMethod mapLower marshal abiJSON a signature = Inl (PanicError err, a') \<and>
              rawMethods a' = (rawMethods a)(ToLower mapLower signature \<mapsto> signature) \<and>
              methods a' = methods a @ [newMethod] \<and>
              contractAbi a' = contractAbi a \<and> calls a' = calls a"
  using assms by (simp add: AddMethod_def Let_def)

text \<open>
  The theorem at a new session and \<open>foo(uint256)(uint256,)\<close>, whose second output has
  the empty type, with a compilation that rejects it.
\<close>

theorem AddMethod_not_atomic_witness:
  "\<exists>a'. AddMethod (map lowerByte) (\<lambda>ms. Inr ''[]'') (\<lambda>abiString. Inl ''unsupported arg type: '')
          (NewContractBuilder (0 :: nat) :: (nat, string) contract) ''foo(uint256)(uint256,)'' =
          Inl (PanicError ''unsupported arg type: '', a') \<and>
        rawMethods a' ''foo(uint256)(uint256,)'' = Some ''foo(uint256)(uint256,)'' \<and>
        map Method.Name (methods a') = [''foo''] \<and> contractAbi a' = 0"
proof -
  let ?sig = "''foo(uint256)(uint256,)''"
  let ?m = "\<lparr>Method.Name = ''foo'',
        Inputs = [\<lparr>Argument.Name = [], Argument.Type = ''uint256'', InternalType = ''uint256''\<rparr>],
        Outputs = [\<lparr>Argument.Name = [], Argument.Type = ''uint256'', InternalType = ''uint256''\<rparr>,
                   \<lparr>Argument.Name = [], Argument.Type = [], InternalType = []\<rparr>],
        Type = ''function'', StateMutability = ''view''\<rparr>"
  let ?a = "NewContractBuilder (0 :: nat) :: (nat, string) contract"
  have lower: "ToLower (map lowerByte) ?sig = ?sig" by code_simp
  have parse: "parseNewMethod ?sig = Inr ?m" by code_simp
  have fresh: "rawMethods ?a (ToLower (map lowerByte) ?sig) = None"
    by (simp add: NewContractBuilder_def)
  have fail: "repackAbi (\<lambda>ms. Inr ''[]'') (\<lambda>abiString. Inl ''unsupported arg type: '')
      (methods ?a @ [?m]) = (Inl ''unsupported arg type: '' :: error + nat)"
    by (simp add: repackAbi_def)
  from AddMethod_not_atomic [OF fresh parse fail]
  show ?thesis by (auto simp: lower NewContractBuilder_def)
qed

end
